theory Spec2Isabelle
  imports Main "HOL-Library.Word"
begin

unbundle bit_operations_syntax

section \<open>Machine types\<close>

text \<open>
  The header targets x86 (it includes \<^verbatim>\<open>immintrin.h\<close>): \<^verbatim>\<open>char\<close> is one byte,
  \<^verbatim>\<open>uint64_t\<close> and \<^verbatim>\<open>size_t\<close> are 64-bit unsigned integers whose arithmetic wraps.
\<close>

type_synonym byte = "8 word"
type_synonym uint64_t = "64 word"
type_synonym size_t = "64 word"

section \<open>Keystream generation\<close>

text \<open>
  \<^verbatim>\<open>Random64\<close>: one step of the linear congruential generator,
  \<^verbatim>\<open>(MULTIPLIER * lastVal) + INCREMENT\<close> on \<^verbatim>\<open>uint64_t\<close>.
\<close>

definition MULTIPLIER :: uint64_t where
  "MULTIPLIER = 6364136223846793005"

definition INCREMENT :: uint64_t where
  "INCREMENT = 1442695040888963407"

definition Random64 :: "uint64_t \<Rightarrow> uint64_t" where
  "Random64 lastVal = (MULTIPLIER * lastVal) + INCREMENT"

text \<open>
  The loop of \<^verbatim>\<open>RandomChar\<close>,
  \<^verbatim>\<open>for (size_t i = 0; i < (index / sizeof(seed)); ++i) seed = Random64(seed);\<close>
  with its counter \<open>i\<close> and its bound \<open>n\<close>, both \<^verbatim>\<open>size_t\<close>.
\<close>

function RandomChar_loop :: "size_t \<Rightarrow> size_t \<Rightarrow> uint64_t \<Rightarrow> uint64_t" where
  "RandomChar_loop i n seed =
     (if i < n then RandomChar_loop (i + 1) n (Random64 seed) else seed)"
  by pat_completeness auto
termination
proof (relation "measure (\<lambda>(i, n, seed). unat n - unat i)")
  show "wf (measure (\<lambda>(i :: size_t, n :: size_t, seed :: uint64_t). unat n - unat i))"
    by simp
next
  fix i n :: size_t and seed :: uint64_t
  assume lt: "i < n"
  then have "unat i < unat n"
    by (simp add: word_less_nat_alt)
  moreover have "unat n < 2 ^ 64"
    using unsigned_less [of n] by simp
  ultimately have "unat i + 1 < 2 ^ 64"
    by simp
  then have "unat (i + 1) = unat i + 1"
    by (simp add: unat_word_ariths)
  with \<open>unat i < unat n\<close> show "((i + 1, n, Random64 seed), (i, n, seed))
      \<in> measure (\<lambda>(i, n, seed). unat n - unat i)"
    by simp
qed

declare RandomChar_loop.simps [simp del]

text \<open>
  \<^verbatim>\<open>RandomChar\<close>: \<^verbatim>\<open>sizeof(seed)\<close> is 8; the result
  \<^verbatim>\<open>(seed >> (index % sizeof(seed) * 8)) & 0xff\<close> is converted to \<^verbatim>\<open>char\<close>,
  which keeps its low eight bits.
\<close>

definition RandomChar :: "uint64_t \<Rightarrow> size_t \<Rightarrow> byte" where
  "RandomChar seed index =
     (let seed' = RandomChar_loop 0 (index div 8) seed
      in ucast (drop_bit (unat (index mod 8 * 8)) seed' AND 0xff))"

section \<open>Fixed compile-time string\<close>

text \<open>
  \<^verbatim>\<open>template<unsigned N> struct FixedString { char buf[N + 1]{}; ... }\<close>.
  The template parameter \<open>N\<close> is kept beside the array. A pointer \<^verbatim>\<open>char const*\<close> is
  modelled by the bytes of the object it points into, from the pointed-to byte on;
  reading past their end is an error (\<open>None\<close>).
\<close>

record FixedString =
  N :: nat
  buf :: "byte list"

text \<open>
  The constructor's loop \<^verbatim>\<open>for (unsigned i = 0; i != N; ++i) buf[i] = s[i];\<close>
\<close>

function FixedString_loop :: "nat \<Rightarrow> nat \<Rightarrow> byte list \<Rightarrow> byte list \<Rightarrow> byte list option" where
  "FixedString_loop i n s b =
     (if i \<noteq> n
      then (if i < length s \<and> i < length b
            then FixedString_loop (i + 1) n s (b[i := s ! i])
            else None)
      else Some b)"
  by pat_completeness auto
termination
  by (relation "measure (\<lambda>(i, n, s, b). length b - i)") auto

declare FixedString_loop.simps [simp del]

text \<open>
  \<^verbatim>\<open>constexpr FixedString(char const* s)\<close>: the array starts zeroed (\<^verbatim>\<open>{}\<close>), then
  the loop copies \<open>N\<close> characters.
\<close>

definition FixedString_ctor :: "nat \<Rightarrow> byte list \<Rightarrow> FixedString option" where
  "FixedString_ctor n s =
     (case FixedString_loop 0 n s (replicate (n + 1) 0) of
        None \<Rightarrow> None
      | Some b \<Rightarrow> Some \<lparr>N = n, buf = b\<rparr>)"

text \<open>
  \<^verbatim>\<open>constexpr size_t size() const { return N + 1; }\<close>: the sum is computed in
  \<^verbatim>\<open>unsigned\<close> (32 bits) and widened to \<^verbatim>\<open>size_t\<close>.
\<close>

definition size_fs :: "FixedString \<Rightarrow> size_t" where
  "size_fs fs = ucast ((word_of_nat (N fs) :: 32 word) + 1)"

text \<open>
  The deduction guide \<^verbatim>\<open>FixedString(char const (&)[N]) -> FixedString<N - 1>\<close>: a
  string literal is an array of its characters and the terminating null.
\<close>

definition FixedString_guide :: "byte list \<Rightarrow> FixedString option" where
  "FixedString_guide arr = FixedString_ctor (length arr - 1) arr"

text \<open>The characters of a string as bytes, and the array a string literal denotes.\<close>

definition chars :: "string \<Rightarrow> byte list" where
  "chars cs = map (\<lambda>c. word_of_nat (of_char c)) cs"

definition literal :: "string \<Rightarrow> byte list" where
  "literal cs = chars cs @ [0]"

section \<open>Seed derivation\<close>

definition SplitMix64 :: "uint64_t \<Rightarrow> uint64_t" where
  "SplitMix64 x =
     (let x1 = (x XOR (drop_bit 30 x)) * 0xbf58476d1ce4e5b9;
          x2 = (x1 XOR (drop_bit 27 x1)) * 0x94d049bb133111eb;
          x3 = x2 XOR (drop_bit 31 x2)
      in x3)"

text \<open>
  \<^verbatim>\<open>FNV1(ptr, hash)\<close> returns
  \<^verbatim>\<open>(*ptr != '\0') ? FNV1(ptr + 1, hash * 0x100000001b3 ^ *ptr) : hash\<close>.
  The multiplication binds tighter than \<^verbatim>\<open>^\<close>. \<^verbatim>\<open>*ptr\<close> is a plain \<^verbatim>\<open>char\<close>,
  signed on the x86 ABIs, so its conversion to \<^verbatim>\<open>uint64_t\<close> extends the sign.
\<close>

fun FNV1 :: "byte list \<Rightarrow> uint64_t \<Rightarrow> uint64_t option" where
  "FNV1 [] hash = None"
| "FNV1 (c # ptr) hash =
     (if c \<noteq> 0 then FNV1 ptr ((hash * 0x100000001b3) XOR (scast c)) else Some hash)"

text \<open>The default argument \<^verbatim>\<open>hash = 0xcbf29ce484222325\<close>.\<close>

definition FNV1_default :: uint64_t where
  "FNV1_default = 0xcbf29ce484222325"

text \<open>
  \<^verbatim>\<open>RandomSeed<String, FileName, LineNumber>()\<close>. The literal
  \<^verbatim>\<open>__DATE__ __TIME__\<close> comes from the compiler; it is the parameter \<open>DATE_TIME\<close>.
  \<^verbatim>\<open>^\<close> associates to the left.
\<close>

definition RandomSeed :: "FixedString \<Rightarrow> FixedString \<Rightarrow> size_t \<Rightarrow> byte list \<Rightarrow> uint64_t option" where
  "RandomSeed String FileName LineNumber DATE_TIME =
     (case FNV1 (buf String) FNV1_default of
        None \<Rightarrow> None
      | Some a \<Rightarrow>
          (case FNV1 (buf FileName) FNV1_default of
             None \<Rightarrow> None
           | Some b \<Rightarrow>
               (case FNV1 DATE_TIME FNV1_default of
                  None \<Rightarrow> None
                | Some c \<Rightarrow> Some (((a XOR b) XOR c) XOR SplitMix64 LineNumber))))"

section \<open>Buffer sizes\<close>

text \<open>
  \<^verbatim>\<open>Align<Alignment>(val)\<close>; in \<^verbatim>\<open>val | Alignment - 1\<close> the subtraction binds
  tighter than \<^verbatim>\<open>|\<close>.
\<close>

definition Align :: "size_t \<Rightarrow> size_t \<Rightarrow> size_t" where
  "Align Alignment val =
     (if val mod Alignment \<noteq> 0 then (val OR (Alignment - 1)) + 1 else val)"

text \<open>\<^verbatim>\<open>sizeof(__m128)\<close>\<close>

definition sizeof_m128 :: size_t where
  "sizeof_m128 = 16"

text \<open>
  The extent of \<^verbatim>\<open>m_key\<close>, \<^verbatim>\<open>m_encBuf\<close> and of the array \<^verbatim>\<open>Decrypt\<close> returns:
  \<^verbatim>\<open>Detail::Align<sizeof(__m128)>(String.size())\<close>.
\<close>

definition array_extent :: "FixedString \<Rightarrow> nat" where
  "array_extent String = unat (Align sizeof_m128 (size_fs String))"

text \<open>
  An array declared without an initialiser holds whatever its storage held before;
  \<open>g\<close> gives that content, byte by byte.
\<close>

definition uninitialized :: "nat \<Rightarrow> (nat \<Rightarrow> byte) \<Rightarrow> byte list" where
  "uninitialized n g = map g [0..<n]"

section \<open>The compile-time loop\<close>

text \<open>
  \<^verbatim>\<open>constexpr_for<Start, End, Inc>(f)\<close> calls \<open>f\<close> at \<open>Start\<close> and recurses at
  \<open>Start + Inc\<close> while \<open>Start < End\<close>. The state \<open>f\<close> writes to is passed along; a
  recursion that never ends is \<open>None\<close>, as is a failing \<open>f\<close>.
\<close>

partial_function (option) constexpr_for ::
  "nat \<Rightarrow> nat \<Rightarrow> nat \<Rightarrow> (nat \<Rightarrow> 's \<Rightarrow> 's option) \<Rightarrow> 's \<Rightarrow> 's option" where
  "constexpr_for Start End Inc f s =
     (if Start < End
      then (case f Start s of
              None \<Rightarrow> None
            | Some s' \<Rightarrow> constexpr_for (Start + Inc) End Inc f s')
      else Some s)"

declare constexpr_for.simps [code]

section \<open>The obfuscation context\<close>

record XorContext =
  m_key :: "byte list"
  m_encBuf :: "byte list"

text \<open>
  The body of the constructor's lambda at index \<open>i\<close>:
  \<^verbatim>\<open>m_key[i] = RandomChar(seed, i); m_encBuf[i] = m_key[i] ^ String.buf[i];\<close>
\<close>

definition XorContext_lambda :: "FixedString \<Rightarrow> uint64_t \<Rightarrow> nat \<Rightarrow> XorContext \<Rightarrow> XorContext option" where
  "XorContext_lambda String seed i this =
     (if i < length (m_key this) \<and> i < length (m_encBuf this) \<and> i < length (buf String)
      then
        (let this1 = this\<lparr>m_key := (m_key this)[i := RandomChar seed (word_of_nat i)]\<rparr>;
             this2 = this1\<lparr>m_encBuf := (m_encBuf this1)[i := (m_key this1 ! i) XOR (buf String ! i)]\<rparr>
         in Some this2)
      else None)"

text \<open>
  \<^verbatim>\<open>XorContext()\<close>: neither member has an initialiser, so the constructor starts from
  the storage's previous content (\<open>gk\<close>, \<open>ge\<close>) and runs
  \<^verbatim>\<open>constexpr_for<0, String.size(), 1>\<close> over the lambda.
\<close>

definition XorContext_ctor ::
  "FixedString \<Rightarrow> FixedString \<Rightarrow> size_t \<Rightarrow> byte list \<Rightarrow> (nat \<Rightarrow> byte) \<Rightarrow> (nat \<Rightarrow> byte) \<Rightarrow> XorContext option" where
  "XorContext_ctor String FileName LineNumber DATE_TIME gk ge =
     (case RandomSeed String FileName LineNumber DATE_TIME of
        None \<Rightarrow> None
      | Some seed \<Rightarrow>
          constexpr_for 0 (unat (size_fs String)) 1 (XorContext_lambda String seed)
            \<lparr>m_key = uninitialized (array_extent String) gk,
             m_encBuf = uninitialized (array_extent String) ge\<rparr>)"

section \<open>Decryption\<close>

text \<open>
  The SSE intrinsics on sixteen bytes at offset \<open>i\<close> of an array: an aligned load, a
  bitwise exclusive or, an aligned store. The arrays are \<^verbatim>\<open>alignas(16)\<close>, so the
  access is aligned when \<open>i\<close> is a multiple of 16; a misaligned access or one past the
  array's end is \<open>None\<close>.
\<close>

definition mm_load_ps :: "byte list \<Rightarrow> nat \<Rightarrow> byte list option" where
  "mm_load_ps a i =
     (if 16 dvd i \<and> i + 16 \<le> length a then Some (take 16 (drop i a)) else None)"

definition mm_xor_ps :: "byte list \<Rightarrow> byte list \<Rightarrow> byte list" where
  "mm_xor_ps a b = map2 (XOR) a b"

definition mm_store_ps :: "byte list \<Rightarrow> nat \<Rightarrow> byte list \<Rightarrow> byte list option" where
  "mm_store_ps a i v =
     (if 16 dvd i \<and> i + 16 \<le> length a then Some (take i a @ v @ drop (i + 16) a) else None)"

text \<open>
  The loop of \<^verbatim>\<open>Decrypt\<close>,
  \<^verbatim>\<open>for (size_t i = 0; i < String.size(); i += sizeof(__m128))\<close>. Its bound is below
  \<open>2\<^sup>3\<^sup>2\<close> (see \<open>size_fs\<close>), so the 64-bit counter does not wrap.
\<close>

function Decrypt_loop :: "nat \<Rightarrow> nat \<Rightarrow> XorContext \<Rightarrow> byte list \<Rightarrow> byte list option" where
  "Decrypt_loop i n this result =
     (if i < n
      then (case mm_load_ps (m_key this) i of
              None \<Rightarrow> None
            | Some k \<Rightarrow>
                (case mm_load_ps (m_encBuf this) i of
                   None \<Rightarrow> None
                 | Some e \<Rightarrow>
                     (case mm_store_ps result i (mm_xor_ps k e) of
                        None \<Rightarrow> None
                      | Some result' \<Rightarrow> Decrypt_loop (i + unat sizeof_m128) n this result')))
      else Some result)"
  by pat_completeness auto
termination
  by (relation "measure (\<lambda>(i, n, this, result). n - i)") (auto simp: sizeof_m128_def)

declare Decrypt_loop.simps [simp del]

text \<open>
  \<^verbatim>\<open>Decrypt()\<close>: the local \<^verbatim>\<open>result\<close> has no initialiser (\<open>gr\<close> is the content of its
  storage on entry); the loop fills it and it is returned.
\<close>

definition Decrypt :: "FixedString \<Rightarrow> XorContext \<Rightarrow> (nat \<Rightarrow> byte) \<Rightarrow> byte list option" where
  "Decrypt String this gr =
     Decrypt_loop 0 (unat (size_fs String)) this (uninitialized (array_extent String) gr)"

section \<open>The call-site macros\<close>

text \<open>
  \<^verbatim>\<open>#define XorStr_(str) XorContext<str, __FILE__, __LINE__>().Decrypt()\<close>: the template
  arguments \<^verbatim>\<open>str\<close> and \<^verbatim>\<open>__FILE__\<close> become \<^verbatim>\<open>FixedString\<close>s through the deduction
  guide. The header defines the macro unconditionally: no \<^verbatim>\<open>#ifdef\<close> consults
  \<^verbatim>\<open>CTE_ENCRYPTSTRINGS\<close>, the definition that the CMake option \<^verbatim>\<open>ENCRYPT_STRINGS\<close> adds.
  Whether it is defined is the first parameter, which the expansion does not use.
\<close>

definition XorStr_array ::
  "bool \<Rightarrow> byte list \<Rightarrow> byte list \<Rightarrow> size_t \<Rightarrow> byte list \<Rightarrow>
   (nat \<Rightarrow> byte) \<Rightarrow> (nat \<Rightarrow> byte) \<Rightarrow> (nat \<Rightarrow> byte) \<Rightarrow> byte list option" where
  "XorStr_array CTE_ENCRYPTSTRINGS str FILE LINE DATE_TIME gk ge gr =
     (case FixedString_guide str of
        None \<Rightarrow> None
      | Some String \<Rightarrow>
          (case FixedString_guide FILE of
             None \<Rightarrow> None
           | Some FileName \<Rightarrow>
               (case XorContext_ctor String FileName LINE DATE_TIME gk ge of
                  None \<Rightarrow> None
                | Some this \<Rightarrow> Decrypt String this gr)))"

text \<open>
  \<^verbatim>\<open>#define XorStr(str) XorContext<str, __FILE__, __LINE__>().Decrypt().data()\<close>: the
  pointer to the first byte of that array, hence the same bytes.
\<close>

definition XorStr ::
  "bool \<Rightarrow> byte list \<Rightarrow> byte list \<Rightarrow> size_t \<Rightarrow> byte list \<Rightarrow>
   (nat \<Rightarrow> byte) \<Rightarrow> (nat \<Rightarrow> byte) \<Rightarrow> (nat \<Rightarrow> byte) \<Rightarrow> byte list option" where
  "XorStr CTE_ENCRYPTSTRINGS str FILE LINE DATE_TIME gk ge gr =
     XorStr_array CTE_ENCRYPTSTRINGS str FILE LINE DATE_TIME gk ge gr"

section \<open>The specification's notions, in its own words\<close>

text \<open>Byte \<open>j\<close> of a 64-bit state, the least significant byte first.\<close>

definition state_byte :: "uint64_t \<Rightarrow> nat \<Rightarrow> byte" where
  "state_byte state j = ucast (drop_bit (8 * j) state)"

text \<open>
  The data model's keystream byte: iterate the step \<open>\<lceil>i / 8\<rceil>\<close> times from the seed,
  then take byte \<open>i mod 8\<close> of the state.
\<close>

definition Keystream_ceil :: "uint64_t \<Rightarrow> nat \<Rightarrow> byte" where
  "Keystream_ceil seed i = state_byte ((Random64 ^^ ((i + 7) div 8)) seed) (i mod 8)"

text \<open>
  The 64-bit FNV-1 hash of a null-terminated byte sequence: from the offset basis
  \<open>0xcbf29ce484222325\<close>, for each octet before the first null, multiply by the prime
  \<open>0x100000001b3\<close>, then exclusive-or the octet, a value from 0 to 255, into the low
  byte.
\<close>

definition Fnv1 :: "byte list \<Rightarrow> uint64_t" where
  "Fnv1 bytes =
     fold (\<lambda>octet hash. (hash * 0x100000001b3) XOR (ucast octet))
       (takeWhile (\<lambda>octet. octet \<noteq> 0) bytes) 0xcbf29ce484222325"

text \<open>The seed the specification derives, with the code's mixer for the line number.\<close>

definition DeriveSeed :: "byte list \<Rightarrow> byte list \<Rightarrow> size_t \<Rightarrow> byte list \<Rightarrow> uint64_t" where
  "DeriveSeed string fileName lineNumber buildTimestamp =
     Fnv1 string XOR Fnv1 fileName XOR Fnv1 buildTimestamp XOR SplitMix64 lineNumber"

text \<open>\<open>n\<close> rounded up to the next multiple of 16.\<close>

definition round_up_16 :: "nat \<Rightarrow> nat" where
  "round_up_16 n = 16 * ((n + 15) div 16)"

section \<open>What the code's hash and seed evaluate to\<close>

text \<open>
  The value \<^verbatim>\<open>FNV1\<close> returns on the characters \<open>bytes\<close> followed by a null: its
  recursion as a fold, each \<^verbatim>\<open>char\<close> sign-extended as in the code. The value of
  \<^verbatim>\<open>RandomSeed\<close> on three such strings follows.
\<close>

definition FNV1_result :: "byte list \<Rightarrow> uint64_t" where
  "FNV1_result bytes =
     fold (\<lambda>c hash. (hash * 0x100000001b3) XOR (scast c)) (takeWhile (\<lambda>c. c \<noteq> 0) bytes)
       0xcbf29ce484222325"

definition RandomSeed_result :: "byte list \<Rightarrow> byte list \<Rightarrow> size_t \<Rightarrow> byte list \<Rightarrow> uint64_t" where
  "RandomSeed_result string fileName lineNumber buildTimestamp =
     FNV1_result string XOR FNV1_result fileName XOR FNV1_result buildTimestamp XOR
       SplitMix64 lineNumber"

section \<open>Sample inputs\<close>

text \<open>Storage that held the byte \<open>c\<close> everywhere before an array was placed in it.\<close>

definition stale :: "byte \<Rightarrow> nat \<Rightarrow> byte" where
  "stale c i = c"

text \<open>
  The literal \<^verbatim>\<open>"hello"\<close> at \<^verbatim>\<open>a.cpp\<close>, for a build on \<^verbatim>\<open>Nov  2 2026\<close> at
  \<^verbatim>\<open>08:28:00\<close>.
\<close>

definition hello :: FixedString where
  "hello = \<lparr>N = 5, buf = [0x68, 0x65, 0x6c, 0x6c, 0x6f, 0]\<rparr>"

definition a_cpp :: FixedString where
  "a_cpp = \<lparr>N = 5, buf = [0x61, 0x2e, 0x63, 0x70, 0x70, 0]\<rparr>"

definition build_stamp :: "byte list" where
  "build_stamp = literal ''Nov  2 202608:28:00''"

text \<open>The literal \<^verbatim>\<open>"\xe9"\<close>: one character with its top bit set.\<close>

definition high_byte :: FixedString where
  "high_byte = \<lparr>N = 1, buf = [0xe9, 0]\<rparr>"

text \<open>A context for \<^verbatim>\<open>"hello"\<close>, built over storage that held \<open>0xAA\<close> and \<open>0xBB\<close>.\<close>

definition hello_ctx :: XorContext where
  "hello_ctx =
     \<lparr>m_key = [0x3d, 0xb8, 0x5a, 0xe4, 0x66, 0xf3,
                0xAA, 0xAA, 0xAA, 0xAA, 0xAA, 0xAA, 0xAA, 0xAA, 0xAA, 0xAA],
      m_encBuf = [0x55, 0xdd, 0x36, 0x88, 0x09, 0xf3,
                  0xBB, 0xBB, 0xBB, 0xBB, 0xBB, 0xBB, 0xBB, 0xBB, 0xBB, 0xBB]\<rparr>"

section \<open>The constructor's loop invariant\<close>

text \<open>
  After the indices below \<open>i\<close>: both arrays keep their extent, the elements below \<open>i\<close>
  hold the key and the cipher bytes, the others what the storage held.
\<close>

definition ctor_inv ::
  "FixedString \<Rightarrow> uint64_t \<Rightarrow> (nat \<Rightarrow> byte) \<Rightarrow> (nat \<Rightarrow> byte) \<Rightarrow> nat \<Rightarrow> XorContext \<Rightarrow> bool" where
  "ctor_inv String seed gk ge i this \<longleftrightarrow>
     length (m_key this) = array_extent String \<and>
     length (m_encBuf this) = array_extent String \<and>
     (\<forall>j < array_extent String.
        m_key this ! j = (if j < i then RandomChar seed (word_of_nat j) else gk j) \<and>
        m_encBuf this ! j =
          (if j < i then RandomChar seed (word_of_nat j) XOR buf String ! j else ge j))"

section \<open>Properties of the keystream\<close>

lemma RandomChar_loop_funpow:
  "unat i + k = unat n \<Longrightarrow> RandomChar_loop i n seed = (Random64 ^^ k) seed"
proof (induction k arbitrary: i seed)
  case 0
  then have "i = n" by (simp add: word_unat_eq_iff)
  then show ?case by (simp add: RandomChar_loop.simps [of n])
next
  case (Suc k)
  have "unat n < 2 ^ 64" using unsigned_less [of n] by simp
  with Suc.prems have "unat i + 1 < 2 ^ 64" by simp
  then have u: "unat (i + 1) = unat i + 1" by (simp add: unat_word_ariths)
  from Suc.prems have "i < n" by (simp add: word_less_nat_alt)
  moreover have "RandomChar_loop (i + 1) n (Random64 seed) = (Random64 ^^ k) (Random64 seed)"
    using Suc.prems u by (intro Suc.IH) simp
  ultimately show ?case by (simp add: RandomChar_loop.simps [of i] funpow_swap1)
qed

lemma ucast_and_0xff: "(ucast ((w :: uint64_t) AND 0xff) :: byte) = ucast w"
proof -
  have m: "(0xff :: uint64_t) = mask 8" by (simp add: mask_eq_exp_minus_1)
  show ?thesis
    unfolding m by (rule bit_word_eqI) (simp add: bit_simps)
qed

lemma shift_amount: "unat ((index :: size_t) mod 8 * 8) = 8 * (unat index mod 8)"
  by (simp add: unat_word_ariths unat_mod)

lemma RandomChar_funpow:
  "RandomChar seed index = state_byte ((Random64 ^^ (unat index div 8)) seed) (unat index mod 8)"
proof -
  have "RandomChar_loop 0 (index div 8) seed = (Random64 ^^ (unat index div 8)) seed"
    by (rule RandomChar_loop_funpow) (simp add: unat_div)
  then show ?thesis
    by (simp add: RandomChar_def state_byte_def ucast_and_0xff shift_amount)
qed

text \<open>
  C4, as the specification words it, fails: at seed 0 and index 1 the code takes no step
  and returns byte 1 of the seed, which is 0, while one step from 0 gives the state
  \<open>0x14057B7EF767814F\<close>, whose byte 1 is \<open>0x81\<close> and none of whose bytes is 0.
\<close>

theorem Keystream_ceil_counterexample:
  "RandomChar 0 1 = 0 \<and> Keystream_ceil 0 1 = 0x81 \<and>
   map (state_byte ((Random64 ^^ 1) 0)) [0..<8] = [0x4F, 0x81, 0x67, 0xF7, 0x7E, 0x7B, 0x05, 0x14]"
  by (simp add: RandomChar_def RandomChar_loop.simps Keystream_ceil_def state_byte_def
      Random64_def MULTIPLIER_def INCREMENT_def upt_rec)

text \<open>
  C4, amended: for every seed and every index \<open>i\<close>, the keystream byte at \<open>i\<close> is byte
  \<open>i mod 8\<close> of the state reached from the seed by \<open>\<lfloor>i / 8\<rfloor>\<close> steps of the generator.
\<close>

theorem RandomChar_keystream:
  "RandomChar seed index =
     state_byte ((Random64 ^^ (unat index div 8)) seed) (unat index mod 8)"
proof -
  have "unat 0 + unat index div 8 = unat (index div 8)"
    by (simp add: unat_div)
  then have "RandomChar_loop 0 (index div 8) seed = (Random64 ^^ (unat index div 8)) seed"
    by (rule RandomChar_loop_funpow)
  moreover have "unat (index mod 8 * 8) = 8 * (unat index mod 8)"
    by (rule shift_amount)
  ultimately show ?thesis
    by (simp add: RandomChar_def state_byte_def ucast_and_0xff)
qed

text \<open>
  C5: \<^verbatim>\<open>RandomChar(seed, index)\<close> is the byte at position \<open>index mod 8\<close>, counted from the
  least significant byte, of the state obtained from the seed by exactly
  \<open>\<lfloor>index / 8\<rfloor>\<close> iterations of
  \<open>state = state * 6364136223846793005 + 1442695040888963407\<close> modulo \<open>2\<^sup>6\<^sup>4\<close>. The index
  alone determines the byte: no iteration state is kept between calls.
\<close>

theorem RandomChar_floor:
  "RandomChar seed index =
     ucast (drop_bit (8 * (unat index mod 8))
       (((\<lambda>state. state * 6364136223846793005 + 1442695040888963407) ^^ (unat index div 8)) seed))"
proof -
  have "Random64 = (\<lambda>state. state * 6364136223846793005 + 1442695040888963407)"
    by (rule ext) (simp add: Random64_def MULTIPLIER_def INCREMENT_def mult.commute)
  then show ?thesis
    by (simp add: RandomChar_funpow state_byte_def)
qed

section \<open>Properties of the fixed string\<close>

lemma FixedString_loop_copy:
  "i \<le> n \<Longrightarrow> n \<le> length s \<Longrightarrow> n < length b \<Longrightarrow>
   FixedString_loop i n s b = Some (take i b @ take (n - i) (drop i s) @ drop n b)"
proof (induction "n - i" arbitrary: i b)
  case 0
  then show ?case by (simp add: FixedString_loop.simps [of i])
next
  case (Suc k)
  then have lt: "i < n" "i < length s" "i < length b" by simp_all
  have step: "FixedString_loop i n s b = FixedString_loop (i + 1) n s (b[i := s ! i])"
    using lt by (simp add: FixedString_loop.simps [of i])
  have ih: "FixedString_loop (i + 1) n s (b[i := s ! i]) =
      Some (take (i + 1) (b[i := s ! i]) @ take (n - (i + 1)) (drop (i + 1) s) @ drop n (b[i := s ! i]))"
    using Suc.hyps(2) Suc.prems lt by (intro Suc.hyps(1)) simp_all
  have front: "take (i + 1) (b[i := s ! i]) = take i b @ [s ! i]"
    using lt by (simp add: take_Suc_conv_app_nth)
  have rear: "drop n (b[i := s ! i]) = drop n b"
    using lt by simp
  have "drop i s = s ! i # drop (i + 1) s"
    using lt by (simp add: Cons_nth_drop_Suc)
  moreover have "n - i = Suc (n - (i + 1))"
    using lt by simp
  ultimately have middle: "take (n - i) (drop i s) = s ! i # take (n - (i + 1)) (drop (i + 1) s)"
    by simp
  show ?case
    by (simp only: step ih front rear middle) simp
qed

lemma FixedString_ctor_buf:
  assumes "n \<le> length s"
  shows "FixedString_ctor n s = Some \<lparr>N = n, buf = take n s @ [0]\<rparr>"
proof -
  have "FixedString_loop 0 n s (replicate (n + 1) 0) =
      Some (take 0 (replicate (n + 1) 0) @ take (n - 0) (drop 0 s) @ drop n (replicate (n + 1) 0))"
    using assms by (intro FixedString_loop_copy) simp_all
  moreover have "drop n (replicate (n + 1) (0 :: byte)) = [0]"
    by (simp only: drop_replicate) simp
  ultimately show ?thesis by (simp add: FixedString_ctor_def)
qed

lemma size_fs_unat: "N fs < 2 ^ 32 - 1 \<Longrightarrow> unat (size_fs fs) = N fs + 1"
proof -
  assume b: "N fs < 2 ^ 32 - 1"
  have "unat ((word_of_nat (N fs) :: 32 word) + 1) = (N fs mod 2 ^ 32 + 1) mod 2 ^ 32"
    by (simp add: unat_word_ariths unat_of_nat)
  also have "\<dots> = N fs + 1" using b by simp
  finally have "unat ((word_of_nat (N fs) :: 32 word) + 1) = N fs + 1" .
  with b show ?thesis
    by (simp add: size_fs_def unsigned_ucast_eq take_bit_eq_mod)
qed

section \<open>Properties of the seed derivation\<close>

lemma FNV1_terminated:
  "\<exists>h'. FNV1 (cs @ 0 # rest) h = Some h'"
  by (induction cs arbitrary: h) auto

lemma FNV1_unterminated:
  "0 \<notin> set cs \<Longrightarrow> FNV1 cs h = None"
  by (induction cs arbitrary: h) auto

lemma FNV1_eq_fold:
  "FNV1 (cs @ 0 # rest) h =
     Some (fold (\<lambda>c hash. (hash * 0x100000001b3) XOR (scast c)) (takeWhile (\<lambda>c. c \<noteq> 0) cs) h)"
  by (induction cs arbitrary: h) simp_all

lemma FNV1_literal: "FNV1 (cs @ [0]) FNV1_default = Some (FNV1_result cs)"
  by (simp add: FNV1_eq_fold FNV1_result_def FNV1_default_def)

text \<open>On a byte below \<open>0x80\<close> the sign extension is the byte itself.\<close>

lemma scast_7bit: "\<not> bit c 7 \<Longrightarrow> (scast (c :: byte) :: uint64_t) = ucast c"
proof (rule bit_word_eqI)
  fix n assume a: "\<not> bit c 7" "n < LENGTH(64)"
  show "bit (scast c :: uint64_t) n = bit (ucast c :: uint64_t) n"
  proof (cases "n < 7")
    case True
    then show ?thesis using a by (simp add: bit_simps min_def)
  next
    case False
    then have "\<not> bit c n" using a(1)
      by (cases "n = 7") (auto simp: bit_simps dest: bit_imp_le_length)
    with False a show ?thesis by (simp add: bit_simps min_def)
  qed
qed

section \<open>Properties of the buffer sizes\<close>

lemma round_up_step:
  assumes "(n :: nat) mod 16 \<noteq> 0"
  shows "16 * (n div 16) + 16 = 16 * ((n + 15) div 16)"
proof -
  define q r where "q = n div 16" and "r = n mod 16"
  have n: "n = 16 * q + r" and r: "r < 16" "0 < r"
    using assms by (simp_all add: q_def r_def)
  have "(n + 15) div 16 = q + 1"
  proof (rule div_nat_eqI)
    show "16 * (q + 1) \<le> n + 15"
      using n r by simp
    show "n + 15 < 16 * Suc (q + 1)"
      using n r by simp
  qed
  then show ?thesis
    by (simp add: q_def)
qed

lemma round_up_exact:
  assumes "(n :: nat) mod 16 = 0"
  shows "n = 16 * ((n + 15) div 16)"
proof -
  define q where "q = n div 16"
  have n: "n = 16 * q"
    using assms by (auto simp add: q_def)
  have "(n + 15) div 16 = q"
  proof (rule div_nat_eqI)
    show "16 * q \<le> n + 15"
      using n by simp
    show "n + 15 < 16 * Suc q"
      using n by simp
  qed
  with n show ?thesis
    by simp
qed

lemma multiples_16_meet:
  assumes "16 dvd (i :: nat)" "16 dvd len" "i \<le> len" "n \<le> i" "len < n + 16"
  shows "i = len"
proof -
  from assms obtain a b where ab: "i = 16 * a" "len = 16 * b"
    by (auto elim!: dvdE)
  with assms have "16 * b < 16 * a + 16" "a \<le> b"
    by simp_all
  then have "b < a + 1" "a \<le> b"
    by simp_all
  with ab show ?thesis
    by simp
qed

lemma multiples_16_fit:
  assumes "16 dvd (i :: nat)" "16 dvd len" "i < len"
  shows "i + 16 \<le> len"
proof -
  from assms obtain a b where ab: "i = 16 * a" "len = 16 * b"
    by (auto elim!: dvdE)
  with assms have "a < b"
    by simp
  then have "a + 1 \<le> b"
    by simp
  then have "16 * (a + 1) \<le> 16 * b"
    by (rule mult_le_mono2)
  with ab show ?thesis
    by simp
qed

lemma or_15_nat: "(n :: nat) OR 15 = 16 * (n div 16) + 15"
proof -
  have m: "(15 :: nat) = mask 4" by (simp add: mask_eq_exp_minus_1)
  have "n OR mask 4 = push_bit 4 (drop_bit 4 n) OR mask 4"
    by (rule bit_eqI) (auto simp add: bit_simps)
  also have "\<dots> = push_bit 4 (drop_bit 4 n) + mask 4"
    by (rule disjunctive_add [symmetric]) (auto simp add: bit_simps)
  finally show ?thesis
    unfolding m by (simp add: push_bit_eq_mult drop_bit_eq_div mask_eq_exp_minus_1)
qed

lemma Align_16_unat:
  assumes "unat val + 16 < 2 ^ 64"
  shows "unat (Align sizeof_m128 val) = round_up_16 (unat val)"
proof (cases "unat val mod 16 = 0")
  case True
  then have "val mod 16 = 0"
    by (simp add: word_unat_eq_iff unat_mod)
  then have "Align sizeof_m128 val = val"
    by (simp add: Align_def sizeof_m128_def)
  with round_up_exact [OF True] show ?thesis
    by (simp add: round_up_16_def)
next
  case False
  then have "val mod 16 \<noteq> 0"
    by (simp add: word_unat_eq_iff unat_mod)
  then have a: "Align sizeof_m128 val = (val OR 15) + 1"
    by (simp add: Align_def sizeof_m128_def)
  have "unat (val OR 15) = unat val OR 15"
    by (simp add: unsigned_or_eq)
  then have o: "unat (val OR 15) = 16 * (unat val div 16) + 15"
    by (simp add: or_15_nat)
  have "unat ((val OR 15) + 1) = (unat (val OR 15) + 1) mod 2 ^ 64"
    by (simp add: unat_word_ariths)
  also have "\<dots> = unat (val OR 15) + 1"
  proof (rule mod_less)
    have "16 * (unat val div 16) \<le> unat val"
      by simp
    with assms o show "unat (val OR 15) + 1 < 2 ^ 64"
      by linarith
  qed
  also have "\<dots> = 16 * (unat val div 16) + 16"
    unfolding o by simp
  also have "\<dots> = 16 * ((unat val + 15) div 16)"
    using False by (rule round_up_step)
  finally show ?thesis
    by (simp only: a round_up_16_def)
qed

section \<open>Properties of the compile-time loop and the constructor\<close>

lemma constexpr_for_rule:
  assumes "Start \<le> End" and "P Start s"
    and step: "\<And>i s. i < End \<Longrightarrow> P i s \<Longrightarrow> \<exists>s'. f i s = Some s' \<and> P (i + 1) s'"
  shows "\<exists>s'. constexpr_for Start End 1 f s = Some s' \<and> P End s'"
  using assms(1,2)
proof (induction "End - Start" arbitrary: Start s)
  case 0
  then show ?case by (simp add: constexpr_for.simps [of Start])
next
  case (Suc k)
  then have lt: "Start < End" by simp
  obtain s' where s': "f Start s = Some s'" "P (Start + 1) s'"
    using step [of Start s] lt Suc.prems by auto
  have "\<exists>s''. constexpr_for (Start + 1) End 1 f s' = Some s'' \<and> P End s''"
    using Suc.hyps(2) lt s'(2) by (intro Suc.hyps(1)) simp_all
  then show ?case
    using lt s'(1) by (simp add: constexpr_for.simps [of Start])
qed

lemma ctor_inv_init:
  "ctor_inv String seed gk ge 0
     \<lparr>m_key = uninitialized (array_extent String) gk,
      m_encBuf = uninitialized (array_extent String) ge\<rparr>"
  by (simp add: ctor_inv_def uninitialized_def)

lemma ctor_inv_step:
  assumes "i < length (buf String)" "i < array_extent String" "ctor_inv String seed gk ge i this"
  shows "\<exists>this'. XorContext_lambda String seed i this = Some this' \<and> ctor_inv String seed gk ge (i + 1) this'"
  using assms
  by (auto simp add: XorContext_lambda_def ctor_inv_def Let_def nth_list_update less_Suc_eq)

section \<open>Properties of the decryption loop\<close>

lemma mm_xor_ps_append:
  "length a = length b \<Longrightarrow> mm_xor_ps (a @ c) (b @ d) = mm_xor_ps a b @ mm_xor_ps c d"
  by (simp add: mm_xor_ps_def)

lemma block_split: "i + 16 \<le> length a \<Longrightarrow> drop i a = take 16 (drop i a) @ drop (i + 16) a"
  by (metis append_take_drop_id drop_drop add.commute)

lemma Decrypt_loop_xor:
  "length (m_key this) = len \<Longrightarrow> length (m_encBuf this) = len \<Longrightarrow>
   16 dvd len \<Longrightarrow> n \<le> len \<Longrightarrow> len < n + 16 \<Longrightarrow>
   length r = len \<Longrightarrow> 16 dvd i \<Longrightarrow> i \<le> len \<Longrightarrow>
   Decrypt_loop i n this r =
     Some (take i r @ mm_xor_ps (drop i (m_key this)) (drop i (m_encBuf this)))"
proof (induction i n this r rule: Decrypt_loop.induct)
  case (1 i n this r)
  note prems = "1.prems"
  show ?case
  proof (cases "i < n")
    case False
    with prems have "i = len"
      by (intro multiples_16_meet [of i len n]) simp_all
    moreover from False have "Decrypt_loop i n this r = Some r"
      by (simp add: Decrypt_loop.simps [of i])
    ultimately show ?thesis
      using prems by (simp add: mm_xor_ps_def)
  next
    case True
    with prems have fit: "i + 16 \<le> len"
      by (intro multiples_16_fit) simp_all
    let ?k = "take 16 (drop i (m_key this))"
    let ?e = "take 16 (drop i (m_encBuf this))"
    let ?r = "take i r @ mm_xor_ps ?k ?e @ drop (i + 16) r"
    have lk: "mm_load_ps (m_key this) i = Some ?k"
      and le: "mm_load_ps (m_encBuf this) i = Some ?e"
      and st: "mm_store_ps r i (mm_xor_ps ?k ?e) = Some ?r"
      using fit prems by (simp_all add: mm_load_ps_def mm_store_ps_def)
    have len16: "length (mm_xor_ps ?k ?e) = 16"
      using fit prems by (simp add: mm_xor_ps_def)
    have u16: "unat sizeof_m128 = 16"
      by (simp add: sizeof_m128_def)
    have step: "Decrypt_loop i n this r = Decrypt_loop (i + 16) n this ?r"
      using True lk le st by (simp add: Decrypt_loop.simps [of i] u16)
    have "Decrypt_loop (i + unat sizeof_m128) n this ?r =
        Some (take (i + unat sizeof_m128) ?r @
          mm_xor_ps (drop (i + unat sizeof_m128) (m_key this)) (drop (i + unat sizeof_m128) (m_encBuf this)))"
      using True lk le st fit prems len16
      by (intro "1.IH") (simp_all add: u16)
    then have ih: "Decrypt_loop (i + 16) n this ?r =
        Some (take (i + 16) ?r @
          mm_xor_ps (drop (i + 16) (m_key this)) (drop (i + 16) (m_encBuf this)))"
      unfolding u16 .
    have front: "take (i + 16) ?r = take i r @ mm_xor_ps ?k ?e"
      using fit prems len16 by simp
    have "length ?k = length ?e"
      using fit prems by simp
    then have "mm_xor_ps ?k ?e @ mm_xor_ps (drop (i + 16) (m_key this)) (drop (i + 16) (m_encBuf this))
        = mm_xor_ps (?k @ drop (i + 16) (m_key this)) (?e @ drop (i + 16) (m_encBuf this))"
      by (rule mm_xor_ps_append [symmetric])
    moreover have "?k @ drop (i + 16) (m_key this) = drop i (m_key this)"
      using fit prems by (intro block_split [symmetric]) simp
    moreover have "?e @ drop (i + 16) (m_encBuf this) = drop i (m_encBuf this)"
      using fit prems by (intro block_split [symmetric]) simp
    ultimately have join:
      "mm_xor_ps ?k ?e @ mm_xor_ps (drop (i + 16) (m_key this)) (drop (i + 16) (m_encBuf this))
        = mm_xor_ps (drop i (m_key this)) (drop i (m_encBuf this))"
      by simp
    show ?thesis
      by (simp only: step ih front append_assoc join)
  qed
qed

lemma state_byte_xor: "state_byte (x XOR y) j = state_byte x j XOR state_byte y j"
  by (rule bit_word_eqI) (simp add: state_byte_def bit_simps)

section \<open>From the literal to the decrypted buffer\<close>

lemma FixedString_guide_literal:
  "FixedString_guide (S @ [0]) = Some \<lparr>N = length S, buf = S @ [0]\<rparr>"
  using FixedString_ctor_buf [of "length S" "S @ [0]"]
  by (simp add: FixedString_guide_def)

lemma round_up_16_bounds: "n \<le> round_up_16 n \<and> round_up_16 n < n + 16 \<and> 16 dvd round_up_16 n"
proof -
  have d: "16 dvd round_up_16 n"
    by (simp add: round_up_16_def)
  have "n \<le> round_up_16 n \<and> round_up_16 n < n + 16"
  proof (cases "n mod 16 = 0")
    case True
    from round_up_exact [OF True] have "round_up_16 n = n"
      by (simp add: round_up_16_def)
    then show ?thesis
      by simp
  next
    case False
    define q r where "q = n div 16" and "r = n mod 16"
    have "n = 16 * q + r" and "r < 16" and "0 < r"
      using False by (simp_all add: q_def r_def)
    moreover have "round_up_16 n = 16 * q + 16"
      using round_up_step [OF False] by (simp add: round_up_16_def q_def)
    ultimately show ?thesis
      by simp
  qed
  with d show ?thesis
    by simp
qed

lemma array_extent_round_up:
  assumes "N String < 2 ^ 32 - 1"
  shows "array_extent String = round_up_16 (N String + 1)"
proof -
  have u: "unat (size_fs String) = N String + 1"
    using assms by (rule size_fs_unat)
  have "(2 :: nat) ^ 32 + 16 < 2 ^ 64"
    by simp
  with assms u have "unat (size_fs String) + 16 < 2 ^ 64"
    by linarith
  then show ?thesis
    by (simp add: array_extent_def Align_16_unat u)
qed

lemma RandomSeed_literals:
  assumes "buf String = S @ [0]" "buf FileName = F @ [0]"
  shows "RandomSeed String FileName LineNumber (T @ [0]) = Some (RandomSeed_result S F LineNumber T)"
  using assms by (simp add: RandomSeed_def FNV1_literal RandomSeed_result_def xor.assoc)

lemma XorContext_ctor_inv:
  assumes seed: "RandomSeed String FileName LineNumber DATE_TIME = Some seed"
    and n: "N String < 2 ^ 32 - 1" and b: "length (buf String) = N String + 1"
  shows "\<exists>this. XorContext_ctor String FileName LineNumber DATE_TIME gk ge = Some this \<and>
    ctor_inv String seed gk ge (N String + 1) this"
proof -
  have u: "unat (size_fs String) = N String + 1"
    using n by (rule size_fs_unat)
  have fits: "N String + 1 \<le> array_extent String"
    using round_up_16_bounds [of "N String + 1"] by (simp add: array_extent_round_up [OF n])
  have "\<exists>this. constexpr_for 0 (N String + 1) 1 (XorContext_lambda String seed)
        \<lparr>m_key = uninitialized (array_extent String) gk,
         m_encBuf = uninitialized (array_extent String) ge\<rparr> = Some this \<and>
      ctor_inv String seed gk ge (N String + 1) this"
  proof (rule constexpr_for_rule)
    show "0 \<le> N String + 1" by simp
    show "ctor_inv String seed gk ge 0
        \<lparr>m_key = uninitialized (array_extent String) gk,
         m_encBuf = uninitialized (array_extent String) ge\<rparr>"
      by (rule ctor_inv_init)
    fix i this
    assume "i < N String + 1" and "ctor_inv String seed gk ge i this"
    then show "\<exists>this'. XorContext_lambda String seed i this = Some this' \<and>
        ctor_inv String seed gk ge (i + 1) this'"
      using b fits by (intro ctor_inv_step) simp_all
  qed
  then show ?thesis
    by (simp add: XorContext_ctor_def seed u)
qed

lemma Decrypt_xor:
  assumes k: "length (m_key this) = array_extent String"
    and e: "length (m_encBuf this) = array_extent String"
    and n: "N String < 2 ^ 32 - 1"
  shows "Decrypt String this gr = Some (mm_xor_ps (m_key this) (m_encBuf this))"
proof -
  have u: "unat (size_fs String) = N String + 1"
    using n by (rule size_fs_unat)
  note x = array_extent_round_up [OF n]
  note bounds = round_up_16_bounds [of "N String + 1"]
  have "Decrypt_loop 0 (N String + 1) this (uninitialized (array_extent String) gr) =
      Some (take 0 (uninitialized (array_extent String) gr) @
        mm_xor_ps (drop 0 (m_key this)) (drop 0 (m_encBuf this)))"
  proof (rule Decrypt_loop_xor [where len = "array_extent String"])
    show "length (m_key this) = array_extent String" by (rule k)
    show "length (m_encBuf this) = array_extent String" by (rule e)
    show "16 dvd array_extent String" using bounds by (simp add: x)
    show "N String + 1 \<le> array_extent String" using bounds by (simp add: x)
    show "array_extent String < N String + 1 + 16" using bounds by (simp add: x)
    show "length (uninitialized (array_extent String) gr) = array_extent String"
      by (simp add: uninitialized_def)
    show "16 dvd (0 :: nat)" by simp
    show "0 \<le> array_extent String" by simp
  qed
  then show ?thesis
    by (simp add: Decrypt_def u)
qed

section \<open>The claim about the fixed string\<close>

text \<open>
  C10: a \<^verbatim>\<open>FixedString<N>\<close> constructed from a sequence of at least \<open>N\<close> characters
  holds those \<open>N\<close> characters and then a null: \<open>buf[i] = s[i]\<close> for \<open>i < N\<close>,
  \<open>buf[N] = 0\<close>, and \<^verbatim>\<open>size()\<close> is \<open>N + 1\<close>. \<^verbatim>\<open>FNV1\<close> on the array returns (it stops
  at a null inside the array), while on the \<open>N\<close> characters alone, none of them null,
  it runs off the end.
\<close>

theorem FixedString_null_terminated:
  assumes "n \<le> length s" and "n < 2 ^ 32 - 1"
  shows "\<exists>fs. FixedString_ctor n s = Some fs \<and>
    N fs = n \<and> length (buf fs) = n + 1 \<and>
    (\<forall>i < n. buf fs ! i = s ! i) \<and> buf fs ! n = 0 \<and>
    unat (size_fs fs) = n + 1 \<and>
    (\<exists>h'. FNV1 (buf fs) h = Some h') \<and>
    (0 \<notin> set (take n s) \<longrightarrow> FNV1 (take n (buf fs)) h = None)"
proof -
  let ?fs = "\<lparr>N = n, buf = take n s @ [0]\<rparr>"
  have c: "FixedString_ctor n s = Some ?fs"
    using assms(1) by (rule FixedString_ctor_buf)
  have l: "length (take n s) = n"
    using assms(1) by simp
  have "\<forall>i < n. buf ?fs ! i = s ! i"
    using l by (simp add: nth_append)
  moreover have "buf ?fs ! n = 0"
    using l by (simp add: nth_append)
  moreover have "unat (size_fs ?fs) = n + 1"
    using size_fs_unat [of ?fs] assms(2) by simp
  moreover have "\<exists>h'. FNV1 (buf ?fs) h = Some h'"
    using FNV1_terminated [of "take n s" "[]" h] by simp
  moreover have "0 \<notin> set (take n s) \<longrightarrow> FNV1 (take n (buf ?fs)) h = None"
    using l by (simp add: FNV1_unterminated)
  ultimately show ?thesis
    using c l by simp
qed

text \<open>The fixed string of \<^verbatim>\<open>"hello"\<close>.\<close>

theorem FixedString_null_terminated_hello:
  "(5 :: nat) \<le> length (literal ''hello'') \<and> (5 :: nat) < 2 ^ 32 - 1 \<and>
   FixedString_ctor 5 (literal ''hello'') = Some hello \<and>
   buf hello = [0x68, 0x65, 0x6c, 0x6c, 0x6f, 0] \<and>
   unat (size_fs hello) = 6 \<and>
   FNV1 (buf hello) FNV1_default = Some 0x7b495389bdbdd4c7 \<and>
   FNV1 (take 5 (buf hello)) FNV1_default = None"
proof -
  have a: "(5 :: nat) \<le> length (literal ''hello'')"
    by (simp add: literal_def chars_def)
  have b: "(5 :: nat) < 2 ^ 32 - 1"
    by simp
  from FixedString_null_terminated [OF a b, of FNV1_default]
  obtain fs where fs: "FixedString_ctor 5 (literal ''hello'') = Some fs"
    and "N fs = 5" "length (buf fs) = 5 + 1" "\<forall>i < 5. buf fs ! i = literal ''hello'' ! i"
    "buf fs ! 5 = 0" and sz: "unat (size_fs fs) = 5 + 1"
    by blast
  have h: "FixedString_ctor 5 (literal ''hello'') = Some hello"
    using FixedString_ctor_buf [OF a] by (simp add: hello_def literal_def chars_def)
  with fs have "fs = hello"
    by simp
  with sz have "unat (size_fs hello) = 6"
    by simp
  moreover have "FNV1 (buf hello) FNV1_default = Some 0x7b495389bdbdd4c7"
    by (simp add: hello_def FNV1_default_def)
  moreover have "FNV1 (take 5 (buf hello)) FNV1_default = None"
    by (simp add: hello_def FNV1_default_def)
  moreover have "buf hello = [0x68, 0x65, 0x6c, 0x6c, 0x6f, 0]"
    by (simp add: hello_def)
  ultimately show ?thesis
    using a b h by (simp only: simp_thms)
qed

section \<open>The claim about the seed\<close>

text \<open>
  Where no character has its top bit set, the sign extension in \<^verbatim>\<open>FNV1\<close> changes
  nothing: the code's hash is the FNV-1 hash and the seed is the specified one.
\<close>

lemma FNV1_result_7bit:
  assumes "\<forall>c \<in> set bytes. \<not> bit c 7"
  shows "FNV1_result bytes = Fnv1 bytes"
  unfolding FNV1_result_def Fnv1_def
proof (rule fold_cong)
  fix c assume "c \<in> set (takeWhile (\<lambda>c. c \<noteq> 0) bytes)"
  then have "c \<in> set bytes"
    by (rule set_takeWhileD [THEN conjunct1])
  with assms have eq: "(scast c :: uint64_t) = ucast c"
    by (simp add: scast_7bit)
  show "(\<lambda>hash :: uint64_t. (hash * 0x100000001b3) XOR (scast c)) =
      (\<lambda>hash. (hash * 0x100000001b3) XOR (ucast c))"
    by (simp only: eq)
qed simp_all

lemma RandomSeed_7bit:
  assumes S: "FixedString_guide (string @ [0]) = Some String"
    and F: "FixedString_guide (fileName @ [0]) = Some FileName"
    and ascii: "\<forall>c \<in> set (string @ fileName @ buildTimestamp). \<not> bit c 7"
  shows "RandomSeed String FileName lineNumber (buildTimestamp @ [0]) =
    Some (Fnv1 string XOR Fnv1 fileName XOR Fnv1 buildTimestamp XOR SplitMix64 lineNumber)"
proof -
  from S F have "buf String = string @ [0]" and "buf FileName = fileName @ [0]"
    by (auto simp add: FixedString_guide_literal)
  then have "RandomSeed String FileName lineNumber (buildTimestamp @ [0]) =
      Some (RandomSeed_result string fileName lineNumber buildTimestamp)"
    by (rule RandomSeed_literals)
  moreover from ascii have "FNV1_result string = Fnv1 string"
    and "FNV1_result fileName = Fnv1 fileName"
    and "FNV1_result buildTimestamp = Fnv1 buildTimestamp"
    by (simp_all add: FNV1_result_7bit)
  ultimately show ?thesis
    by (simp add: RandomSeed_result_def)
qed

text \<open>
  C6: the seed should be \<open>Fnv1 string XOR Fnv1 fileName XOR Fnv1 buildTimestamp XOR
  SplitMix64 lineNumber\<close> for every string, with \<open>Fnv1\<close> the 64-bit FNV-1 hash. The
  code's \<^verbatim>\<open>FNV1\<close>, documented as that hash, exclusive-ors the sign-extended \<^verbatim>\<open>char\<close>
  into the whole state. On the literal \<^verbatim>\<open>"\xe9"\<close> at \<^verbatim>\<open>a.cpp\<close>, line 10, it returns
  \<open>0x509c42b379fe4836\<close> where FNV-1 is \<open>0xaf63bd4c8601b736\<close>, and the seed is
  \<open>0xf260e25c201924cc\<close> where the specified one is \<open>0x0d9f1da3dfe6dbcc\<close>: the upper
  seven bytes are complemented.
\<close>

theorem RandomSeed_high_byte:
  "FixedString_guide [0xe9, 0] = Some high_byte \<and>
   FixedString_guide (literal ''a.cpp'') = Some a_cpp \<and>
   FNV1 (buf high_byte) FNV1_default = Some 0x509c42b379fe4836 \<and>
   Fnv1 [0xe9] = 0xaf63bd4c8601b736 \<and>
   Fnv1 (chars ''a.cpp'') = 0x27f302c688ec35d7 \<and>
   Fnv1 (chars ''Nov  2 202608:28:00'') = 0x8253273078395c54 \<and>
   SplitMix64 10 = 0x075c8519a9320579 \<and>
   RandomSeed high_byte a_cpp 10 build_stamp = Some 0xf260e25c201924cc \<and>
   DeriveSeed [0xe9] (chars ''a.cpp'') 10 (chars ''Nov  2 202608:28:00'') = 0x0d9f1da3dfe6dbcc"
proof -
  have "FixedString_guide [0xe9, 0] = Some high_byte"
    using FixedString_guide_literal [of "[0xe9]"] by (simp add: high_byte_def)
  moreover have "FixedString_guide (literal ''a.cpp'') = Some a_cpp"
    using FixedString_guide_literal [of "chars ''a.cpp''"]
    by (simp add: a_cpp_def chars_def literal_def)
  moreover have "FNV1 (buf high_byte) FNV1_default = Some 0x509c42b379fe4836"
    by (simp add: high_byte_def FNV1_default_def)
  moreover have e9: "Fnv1 [0xe9] = 0xaf63bd4c8601b736"
    by (simp add: Fnv1_def)
  moreover have f: "Fnv1 (chars ''a.cpp'') = 0x27f302c688ec35d7"
    by (simp add: Fnv1_def chars_def)
  moreover have t: "Fnv1 (chars ''Nov  2 202608:28:00'') = 0x8253273078395c54"
    by (simp add: Fnv1_def chars_def)
  moreover have m: "SplitMix64 10 = 0x075c8519a9320579"
    by (simp add: SplitMix64_def)
  moreover have "RandomSeed high_byte a_cpp 10 build_stamp = Some 0xf260e25c201924cc"
    by (simp add: RandomSeed_def high_byte_def a_cpp_def build_stamp_def literal_def chars_def
        FNV1_default_def SplitMix64_def)
  moreover have "DeriveSeed [0xe9] (chars ''a.cpp'') 10 (chars ''Nov  2 202608:28:00'') =
      0x0d9f1da3dfe6dbcc"
    by (simp add: DeriveSeed_def e9 f t m)
  ultimately show ?thesis
    by (simp only: simp_thms)
qed

section \<open>The claims about the context and its decryption\<close>

lemma nth_mm_xor_ps:
  "i < length a \<Longrightarrow> i < length b \<Longrightarrow> mm_xor_ps a b ! i = a ! i XOR b ! i"
  by (simp add: mm_xor_ps_def)

lemma xor_cancel_byte: "(k :: byte) XOR (k XOR p) = p"
  by (simp add: xor.assoc [symmetric])

text \<open>
  C1: for every literal \<open>S\<close> of length \<open>L\<close>, every file name, line number and build
  timestamp, and whatever the storage held before, the constructor yields a context
  and \<^verbatim>\<open>Decrypt\<close> returns a buffer \<open>result\<close> with \<open>result[i] = S[i]\<close> for \<open>i < L\<close> and
  \<open>result[L] = 0\<close>. \<open>L + 1\<close> fits \<^verbatim>\<open>unsigned\<close>, the type of the template parameter \<open>N\<close>.
\<close>

theorem Decrypt_round_trip:
  assumes S: "FixedString_guide (S @ [0]) = Some String"
    and F: "FixedString_guide (F @ [0]) = Some FileName"
    and L: "length S < 2 ^ 32 - 1"
  shows "\<exists>this result.
    XorContext_ctor String FileName LineNumber (T @ [0]) gk ge = Some this \<and>
    Decrypt String this gr = Some result \<and>
    (\<forall>i < length S. result ! i = S ! i) \<and> result ! length S = 0"
proof -
  from S F have str: "String = \<lparr>N = length S, buf = S @ [0]\<rparr>"
    and fil: "FileName = \<lparr>N = length F, buf = F @ [0]\<rparr>"
    by (simp_all add: FixedString_guide_literal)
  have n: "N String < 2 ^ 32 - 1"
    using L by (simp add: str)
  have seed: "RandomSeed String FileName LineNumber (T @ [0]) = Some (RandomSeed_result S F LineNumber T)"
    by (rule RandomSeed_literals) (simp_all add: str fil)
  obtain this where ctor: "XorContext_ctor String FileName LineNumber (T @ [0]) gk ge = Some this"
    and inv: "ctor_inv String (RandomSeed_result S F LineNumber T) gk ge (N String + 1) this"
    using XorContext_ctor_inv [OF seed n] by (auto simp add: str)
  from inv have k: "length (m_key this) = array_extent String"
    and e: "length (m_encBuf this) = array_extent String"
    by (simp_all add: ctor_inv_def)
  let ?result = "mm_xor_ps (m_key this) (m_encBuf this)"
  have dec: "Decrypt String this gr = Some ?result"
    using k e n by (rule Decrypt_xor)
  have fits: "length S + 1 \<le> array_extent String"
    using round_up_16_bounds [of "N String + 1"] array_extent_round_up [OF n] by (simp add: str)
  have plain: "?result ! i = (S @ [0]) ! i" if "i < length S + 1" for i
  proof -
    from that fits have i: "i < array_extent String"
      by simp
    with inv that have "m_encBuf this ! i = m_key this ! i XOR buf String ! i"
      by (simp add: ctor_inv_def str)
    with i k e show ?thesis
      by (simp add: nth_mm_xor_ps xor_cancel_byte str)
  qed
  have "\<forall>i < length S. ?result ! i = S ! i"
    using plain by (simp add: nth_append)
  moreover have "?result ! length S = 0"
    using plain [of "length S"] by simp
  ultimately show ?thesis
    using ctor dec by simp
qed

text \<open>The round trip at the literal \<^verbatim>\<open>"hello"\<close>, \<^verbatim>\<open>a.cpp\<close>, line 10.\<close>

theorem Decrypt_round_trip_hello:
  "FixedString_guide (literal ''hello'') = Some hello \<and>
   FixedString_guide (literal ''a.cpp'') = Some a_cpp \<and>
   (\<exists>this result.
     XorContext_ctor hello a_cpp 10 build_stamp (stale 0xAA) (stale 0xBB) = Some this \<and>
     Decrypt hello this (stale 0xCC) = Some result \<and>
     result ! 0 = 0x68 \<and> result ! 1 = 0x65 \<and> result ! 2 = 0x6c \<and> result ! 3 = 0x6c \<and>
     result ! 4 = 0x6f \<and> result ! 5 = 0)"
proof -
  have S: "FixedString_guide (chars ''hello'' @ [0]) = Some hello"
    using FixedString_guide_literal [of "chars ''hello''"] by (simp add: hello_def chars_def)
  have F: "FixedString_guide (chars ''a.cpp'' @ [0]) = Some a_cpp"
    using FixedString_guide_literal [of "chars ''a.cpp''"] by (simp add: a_cpp_def chars_def)
  have L: "length (chars ''hello'') < 2 ^ 32 - 1"
    by (simp add: chars_def)
  have len: "length (chars ''hello'') = 5"
    by (simp add: chars_def)
  have stamp: "chars ''Nov  2 202608:28:00'' @ [0] = build_stamp"
    by (simp add: build_stamp_def literal_def)
  note Decrypt_round_trip [OF S F L, of 10 "chars ''Nov  2 202608:28:00''"
      "stale 0xAA" "stale 0xBB" "stale 0xCC", unfolded len stamp]
  then obtain this result where
    a: "XorContext_ctor hello a_cpp 10 build_stamp (stale 0xAA) (stale 0xBB) = Some this"
    and b: "Decrypt hello this (stale 0xCC) = Some result"
    and c: "\<forall>i < 5. result ! i = chars ''hello'' ! i" and d: "result ! 5 = 0"
    by blast
  have "result ! 0 = 0x68" "result ! 1 = 0x65" "result ! 2 = 0x6c"
      "result ! 3 = 0x6c" "result ! 4 = 0x6f"
    using c [rule_format, of 0] c [rule_format, of 1] c [rule_format, of 2]
      c [rule_format, of 3] c [rule_format, of 4]
    by (simp_all add: chars_def)
  with a b d have "\<exists>this result.
     XorContext_ctor hello a_cpp 10 build_stamp (stale 0xAA) (stale 0xBB) = Some this \<and>
     Decrypt hello this (stale 0xCC) = Some result \<and>
     result ! 0 = 0x68 \<and> result ! 1 = 0x65 \<and> result ! 2 = 0x6c \<and> result ! 3 = 0x6c \<and>
     result ! 4 = 0x6f \<and> result ! 5 = 0"
    by blast
  with S F show ?thesis
    by (simp add: literal_def)
qed

text \<open>
  C3, amended: for every index \<open>i\<close> in \<open>[0, L + 1)\<close> the constructor leaves
  \<open>key[i] = ByteAt(seed, i)\<close> and \<open>cipher[i] = key[i] XOR plaintext[i]\<close>, where
  \<open>plaintext[i]\<close> is the literal byte for \<open>i < L\<close> and the null terminator for \<open>i = L\<close>.
\<close>

theorem XorContext_ctor_bytes:
  assumes S: "FixedString_guide (S @ [0]) = Some String"
    and F: "FixedString_guide (F @ [0]) = Some FileName"
    and L: "length S < 2 ^ 32 - 1"
  shows "\<exists>seed this.
    RandomSeed String FileName LineNumber (T @ [0]) = Some seed \<and>
    XorContext_ctor String FileName LineNumber (T @ [0]) gk ge = Some this \<and>
    (\<forall>i < length S + 1.
       m_key this ! i = RandomChar seed (word_of_nat i) \<and>
       m_encBuf this ! i = m_key this ! i XOR (S @ [0]) ! i)"
proof -
  from S F have str: "String = \<lparr>N = length S, buf = S @ [0]\<rparr>"
    and fil: "FileName = \<lparr>N = length F, buf = F @ [0]\<rparr>"
    by (simp_all add: FixedString_guide_literal)
  have n: "N String < 2 ^ 32 - 1"
    using L by (simp add: str)
  have seed: "RandomSeed String FileName LineNumber (T @ [0]) = Some (RandomSeed_result S F LineNumber T)"
    by (rule RandomSeed_literals) (simp_all add: str fil)
  obtain this where ctor: "XorContext_ctor String FileName LineNumber (T @ [0]) gk ge = Some this"
    and inv: "ctor_inv String (RandomSeed_result S F LineNumber T) gk ge (N String + 1) this"
    using XorContext_ctor_inv [OF seed n] by (auto simp add: str)
  have fits: "length S + 1 \<le> array_extent String"
    using round_up_16_bounds [of "N String + 1"] array_extent_round_up [OF n] by (simp add: str)
  have "m_key this ! i = RandomChar (RandomSeed_result S F LineNumber T) (word_of_nat i) \<and>
      m_encBuf this ! i = m_key this ! i XOR (S @ [0]) ! i" if "i < length S + 1" for i
  proof -
    from that fits have "i < array_extent String"
      by simp
    with inv that show ?thesis
      by (simp add: ctor_inv_def str)
  qed
  with seed ctor show ?thesis
    by blast
qed

text \<open>The key and cipher bytes 0 and 5 of \<^verbatim>\<open>"hello"\<close> at \<^verbatim>\<open>a.cpp\<close>, line 10.\<close>

theorem XorContext_ctor_bytes_hello:
  "FixedString_guide (literal ''hello'') = Some hello \<and>
   FixedString_guide (literal ''a.cpp'') = Some a_cpp \<and>
   (\<exists>seed this.
      RandomSeed hello a_cpp 10 build_stamp = Some seed \<and>
      XorContext_ctor hello a_cpp 10 build_stamp (stale 0xAA) (stale 0xBB) = Some this \<and>
      m_key this ! 0 = RandomChar seed 0 \<and> m_encBuf this ! 0 = m_key this ! 0 XOR 0x68 \<and>
      m_key this ! 5 = RandomChar seed 5 \<and> m_encBuf this ! 5 = m_key this ! 5 XOR 0)"
proof -
  have S: "FixedString_guide (chars ''hello'' @ [0]) = Some hello"
    using FixedString_guide_literal [of "chars ''hello''"] by (simp add: hello_def chars_def)
  have F: "FixedString_guide (chars ''a.cpp'' @ [0]) = Some a_cpp"
    using FixedString_guide_literal [of "chars ''a.cpp''"] by (simp add: a_cpp_def chars_def)
  have L: "length (chars ''hello'') < 2 ^ 32 - 1"
    by (simp add: chars_def)
  have len: "length (chars ''hello'') + 1 = 6"
    by (simp add: chars_def)
  have stamp: "chars ''Nov  2 202608:28:00'' @ [0] = build_stamp"
    by (simp add: build_stamp_def literal_def)
  note XorContext_ctor_bytes [OF S F L, of 10 "chars ''Nov  2 202608:28:00''"
      "stale 0xAA" "stale 0xBB", unfolded len stamp]
  then obtain seed this where
    a: "RandomSeed hello a_cpp 10 build_stamp = Some seed"
    and b: "XorContext_ctor hello a_cpp 10 build_stamp (stale 0xAA) (stale 0xBB) = Some this"
    and c: "\<forall>i < 6. m_key this ! i = RandomChar seed (word_of_nat i) \<and>
       m_encBuf this ! i = m_key this ! i XOR (chars ''hello'' @ [0]) ! i"
    by blast
  have "m_key this ! 0 = RandomChar seed 0" "m_encBuf this ! 0 = m_key this ! 0 XOR 0x68"
    "m_key this ! 5 = RandomChar seed 5" "m_encBuf this ! 5 = m_key this ! 5 XOR 0"
    using c [rule_format, of 0] c [rule_format, of 5]
    by (simp_all add: chars_def)
  with a b have "\<exists>seed this.
      RandomSeed hello a_cpp 10 build_stamp = Some seed \<and>
      XorContext_ctor hello a_cpp 10 build_stamp (stale 0xAA) (stale 0xBB) = Some this \<and>
      m_key this ! 0 = RandomChar seed 0 \<and> m_encBuf this ! 0 = m_key this ! 0 XOR 0x68 \<and>
      m_key this ! 5 = RandomChar seed 5 \<and> m_encBuf this ! 5 = m_key this ! 5 XOR 0"
    by blast
  with S F show ?thesis
    by (simp add: literal_def)
qed

text \<open>
  C3, as stated, fails beyond index \<open>L\<close>: the constructor's loop ends at
  \<^verbatim>\<open>String.size()\<close>, not at the padded length. For \<^verbatim>\<open>"hello"\<close> the arrays have 16
  elements and the seed's keystream byte 6 is \<open>0xb5\<close>, but \<open>key[6]\<close> is whatever the
  storage held: \<open>0xAA\<close> over storage filled with \<open>0xAA\<close>, \<open>0x55\<close> over storage filled
  with \<open>0x55\<close>; likewise \<open>cipher[6]\<close> is the stale \<open>0xBB\<close>.
\<close>

theorem XorContext_padding_counterexample:
  "FixedString_guide (literal ''hello'') = Some hello \<and>
   FixedString_guide (literal ''a.cpp'') = Some a_cpp \<and>
   array_extent hello = 16 \<and>
   RandomSeed hello a_cpp 10 build_stamp = Some 0xd9b5f366e45ab83d \<and>
   RandomChar 0xd9b5f366e45ab83d 6 = 0xb5 \<and>
   XorContext_ctor hello a_cpp 10 build_stamp (stale 0xAA) (stale 0xBB) =
     Some \<lparr>m_key = [0x3d, 0xb8, 0x5a, 0xe4, 0x66, 0xf3,
                    0xAA, 0xAA, 0xAA, 0xAA, 0xAA, 0xAA, 0xAA, 0xAA, 0xAA, 0xAA],
           m_encBuf = [0x55, 0xdd, 0x36, 0x88, 0x09, 0xf3,
                       0xBB, 0xBB, 0xBB, 0xBB, 0xBB, 0xBB, 0xBB, 0xBB, 0xBB, 0xBB]\<rparr> \<and>
   XorContext_ctor hello a_cpp 10 build_stamp (stale 0x55) (stale 0xBB) =
     Some \<lparr>m_key = [0x3d, 0xb8, 0x5a, 0xe4, 0x66, 0xf3,
                    0x55, 0x55, 0x55, 0x55, 0x55, 0x55, 0x55, 0x55, 0x55, 0x55],
           m_encBuf = [0x55, 0xdd, 0x36, 0x88, 0x09, 0xf3,
                       0xBB, 0xBB, 0xBB, 0xBB, 0xBB, 0xBB, 0xBB, 0xBB, 0xBB, 0xBB]\<rparr>"
proof -
  have "FixedString_guide (literal ''hello'') = Some hello"
    using FixedString_guide_literal [of "chars ''hello''"]
    by (simp add: hello_def chars_def literal_def)
  moreover have "FixedString_guide (literal ''a.cpp'') = Some a_cpp"
    using FixedString_guide_literal [of "chars ''a.cpp''"]
    by (simp add: a_cpp_def chars_def literal_def)
  moreover have "array_extent hello = 16"
    by (simp add: array_extent_def Align_def sizeof_m128_def size_fs_def hello_def)
  moreover have "RandomSeed hello a_cpp 10 build_stamp = Some 0xd9b5f366e45ab83d"
    by (simp add: RandomSeed_def hello_def a_cpp_def build_stamp_def literal_def chars_def
        FNV1_default_def SplitMix64_def)
  moreover have "RandomChar 0xd9b5f366e45ab83d 6 = 0xb5"
    by (simp add: RandomChar_def RandomChar_loop.simps)
  moreover have "XorContext_ctor hello a_cpp 10 build_stamp (stale 0xAA) (stale 0xBB) =
     Some \<lparr>m_key = [0x3d, 0xb8, 0x5a, 0xe4, 0x66, 0xf3,
                    0xAA, 0xAA, 0xAA, 0xAA, 0xAA, 0xAA, 0xAA, 0xAA, 0xAA, 0xAA],
           m_encBuf = [0x55, 0xdd, 0x36, 0x88, 0x09, 0xf3,
                       0xBB, 0xBB, 0xBB, 0xBB, 0xBB, 0xBB, 0xBB, 0xBB, 0xBB, 0xBB]\<rparr>"
    by code_simp
  moreover have "XorContext_ctor hello a_cpp 10 build_stamp (stale 0x55) (stale 0xBB) =
     Some \<lparr>m_key = [0x3d, 0xb8, 0x5a, 0xe4, 0x66, 0xf3,
                    0x55, 0x55, 0x55, 0x55, 0x55, 0x55, 0x55, 0x55, 0x55, 0x55],
           m_encBuf = [0x55, 0xdd, 0x36, 0x88, 0x09, 0xf3,
                       0xBB, 0xBB, 0xBB, 0xBB, 0xBB, 0xBB, 0xBB, 0xBB, 0xBB, 0xBB]\<rparr>"
    by code_simp
  ultimately show ?thesis
    by (simp only: simp_thms)
qed

text \<open>
  C7: for every literal of length \<open>L\<close>, the key array, the cipher array and the array
  \<^verbatim>\<open>Decrypt\<close> returns have \<open>L + 1\<close> rounded up to the next multiple of 16 elements.
\<close>

theorem buffer_lengths:
  assumes S: "FixedString_guide (S @ [0]) = Some String"
    and F: "FixedString_guide (F @ [0]) = Some FileName"
    and L: "length S < 2 ^ 32 - 1"
  shows "\<exists>this result.
    XorContext_ctor String FileName LineNumber (T @ [0]) gk ge = Some this \<and>
    Decrypt String this gr = Some result \<and>
    length (m_key this) = round_up_16 (length S + 1) \<and>
    length (m_encBuf this) = round_up_16 (length S + 1) \<and>
    length result = round_up_16 (length S + 1)"
proof -
  from S F have str: "String = \<lparr>N = length S, buf = S @ [0]\<rparr>"
    and fil: "FileName = \<lparr>N = length F, buf = F @ [0]\<rparr>"
    by (simp_all add: FixedString_guide_literal)
  have n: "N String < 2 ^ 32 - 1"
    using L by (simp add: str)
  have x: "array_extent String = round_up_16 (length S + 1)"
    using array_extent_round_up [OF n] by (simp add: str)
  have seed: "RandomSeed String FileName LineNumber (T @ [0]) = Some (RandomSeed_result S F LineNumber T)"
    by (rule RandomSeed_literals) (simp_all add: str fil)
  obtain this where ctor: "XorContext_ctor String FileName LineNumber (T @ [0]) gk ge = Some this"
    and inv: "ctor_inv String (RandomSeed_result S F LineNumber T) gk ge (N String + 1) this"
    using XorContext_ctor_inv [OF seed n] by (auto simp add: str)
  from inv have k: "length (m_key this) = array_extent String"
    and e: "length (m_encBuf this) = array_extent String"
    by (simp_all add: ctor_inv_def)
  have dec: "Decrypt String this gr = Some (mm_xor_ps (m_key this) (m_encBuf this))"
    using k e n by (rule Decrypt_xor)
  have "length (mm_xor_ps (m_key this) (m_encBuf this)) = array_extent String"
    using k e by (simp add: mm_xor_ps_def)
  with ctor dec k e show ?thesis
    by (simp add: x)
qed

text \<open>The literal \<^verbatim>\<open>"hello"\<close> (\<open>L = 5\<close>) yields 16-byte buffers.\<close>

theorem buffer_lengths_hello:
  "FixedString_guide (literal ''hello'') = Some hello \<and>
   FixedString_guide (literal ''a.cpp'') = Some a_cpp \<and>
   (\<exists>this result.
      XorContext_ctor hello a_cpp 10 build_stamp (stale 0xAA) (stale 0xBB) = Some this \<and>
      Decrypt hello this (stale 0xCC) = Some result \<and>
      length (m_key this) = 16 \<and> length (m_encBuf this) = 16 \<and> length result = 16)"
proof -
  have S: "FixedString_guide (chars ''hello'' @ [0]) = Some hello"
    using FixedString_guide_literal [of "chars ''hello''"] by (simp add: hello_def chars_def)
  have F: "FixedString_guide (chars ''a.cpp'' @ [0]) = Some a_cpp"
    using FixedString_guide_literal [of "chars ''a.cpp''"] by (simp add: a_cpp_def chars_def)
  have L: "length (chars ''hello'') < 2 ^ 32 - 1"
    by (simp add: chars_def)
  have len: "round_up_16 (length (chars ''hello'') + 1) = 16"
    by (simp add: chars_def round_up_16_def)
  have stamp: "chars ''Nov  2 202608:28:00'' @ [0] = build_stamp"
    by (simp add: build_stamp_def literal_def)
  note buffer_lengths [OF S F L, of 10 "chars ''Nov  2 202608:28:00''"
      "stale 0xAA" "stale 0xBB" "stale 0xCC", unfolded len stamp]
  with S F show ?thesis
    by (simp add: literal_def)
qed

text \<open>
  C9: any two invocations of \<^verbatim>\<open>Decrypt\<close> on the same context return the same buffer,
  whatever the storage of the local \<^verbatim>\<open>result\<close> held on entry to each of them. The
  hypotheses are the extents the class declares for its two arrays.
\<close>

theorem Decrypt_deterministic:
  assumes "length (m_key this) = array_extent String"
    and "length (m_encBuf this) = array_extent String"
    and "N String < 2 ^ 32 - 1"
  shows "\<exists>result. Decrypt String this gr1 = Some result \<and> Decrypt String this gr2 = Some result"
proof -
  have "Decrypt String this gr1 = Some (mm_xor_ps (m_key this) (m_encBuf this))"
    using assms by (rule Decrypt_xor)
  moreover have "Decrypt String this gr2 = Some (mm_xor_ps (m_key this) (m_encBuf this))"
    using assms by (rule Decrypt_xor)
  ultimately show ?thesis
    by simp
qed

text \<open>Two decryptions of the sample context, over zeroed and over \<open>0xFF\<close> storage.\<close>

theorem Decrypt_deterministic_hello:
  "length (m_key hello_ctx) = array_extent hello \<and>
   length (m_encBuf hello_ctx) = array_extent hello \<and>
   N hello < 2 ^ 32 - 1 \<and>
   (\<exists>result. Decrypt hello hello_ctx (stale 0x00) = Some result \<and>
      Decrypt hello hello_ctx (stale 0xFF) = Some result) \<and>
   Decrypt hello hello_ctx (stale 0x00) =
     Some [0x68, 0x65, 0x6c, 0x6c, 0x6f, 0,
           0x11, 0x11, 0x11, 0x11, 0x11, 0x11, 0x11, 0x11, 0x11, 0x11]"
proof -
  have x: "array_extent hello = 16"
    by (simp add: array_extent_def Align_def sizeof_m128_def size_fs_def hello_def)
  have k: "length (m_key hello_ctx) = array_extent hello"
    and e: "length (m_encBuf hello_ctx) = array_extent hello"
    by (simp_all add: x hello_ctx_def)
  have n: "N hello < 2 ^ 32 - 1"
    by (simp add: hello_def)
  note Decrypt_deterministic [OF k e n, of "stale 0x00" "stale 0xFF"]
  moreover have "Decrypt hello hello_ctx (stale 0x00) =
     Some [0x68, 0x65, 0x6c, 0x6c, 0x6f, 0,
           0x11, 0x11, 0x11, 0x11, 0x11, 0x11, 0x11, 0x11, 0x11, 0x11]"
    by code_simp
  ultimately show ?thesis
    using k e n by (simp only: simp_thms)
qed

lemma xor_common: "((p :: uint64_t) XOR a) XOR (p XOR b) = a XOR b"
  by (simp add: ac_simps)

lemma RandomChar_0: "RandomChar seed (word_of_nat 0) = state_byte seed 0"
  by (simp add: RandomChar_funpow)

lemma SplitMix64_10_11:
  "state_byte (SplitMix64 10) 0 = 0x79 \<and> state_byte (SplitMix64 11) 0 = 0x6d"
  by (simp add: SplitMix64_def state_byte_def)

lemma RandomSeed_result_split:
  "RandomSeed_result S F LineNumber T = (FNV1_result S XOR FNV1_result F XOR FNV1_result T) XOR SplitMix64 LineNumber"
  by (simp add: RandomSeed_result_def ac_simps)

text \<open>
  C8: for the literal \<^verbatim>\<open>"hello"\<close>, in any one file and any one build, the seeds derived
  at lines 10 and 11 differ exactly by \<open>SplitMix64 10 XOR SplitMix64 11\<close>, hence differ,
  and the key buffer built at line 10 differs from the one built at line 11 (already in
  its first byte), whatever the storage of either held before.
\<close>

theorem key_differs_by_line:
  assumes S: "FixedString_guide (literal ''hello'') = Some String"
    and F: "FixedString_guide (F @ [0]) = Some FileName"
  shows "\<exists>seed10 seed11 this10 this11.
    RandomSeed String FileName 10 (T @ [0]) = Some seed10 \<and>
    RandomSeed String FileName 11 (T @ [0]) = Some seed11 \<and>
    seed10 XOR seed11 = SplitMix64 10 XOR SplitMix64 11 \<and> seed10 \<noteq> seed11 \<and>
    XorContext_ctor String FileName 10 (T @ [0]) gk ge = Some this10 \<and>
    XorContext_ctor String FileName 11 (T @ [0]) gk' ge' = Some this11 \<and>
    m_key this10 \<noteq> m_key this11"
proof -
  let ?S = "chars ''hello''"
  let ?s10 = "RandomSeed_result ?S F 10 T" and ?s11 = "RandomSeed_result ?S F 11 T"
  from S F have str: "String = \<lparr>N = length ?S, buf = ?S @ [0]\<rparr>"
    and fil: "FileName = \<lparr>N = length F, buf = F @ [0]\<rparr>"
    by (simp_all add: FixedString_guide_literal literal_def)
  have n: "N String < 2 ^ 32 - 1"
    by (simp add: str chars_def)
  have seed10: "RandomSeed String FileName 10 (T @ [0]) = Some ?s10"
    and seed11: "RandomSeed String FileName 11 (T @ [0]) = Some ?s11"
    by (rule RandomSeed_literals; simp add: str fil)+
  have diff: "?s10 XOR ?s11 = SplitMix64 10 XOR SplitMix64 11"
    by (simp only: RandomSeed_result_split xor_common)
  have byte0: "state_byte ?s10 0 \<noteq> state_byte ?s11 0"
  proof
    assume "state_byte ?s10 0 = state_byte ?s11 0"
    then have "state_byte (?s10 XOR ?s11) 0 = 0"
      by (simp add: state_byte_xor)
    then have "state_byte (SplitMix64 10) 0 XOR state_byte (SplitMix64 11) 0 = 0"
      by (simp only: diff state_byte_xor)
    then show False
      by (simp add: SplitMix64_10_11)
  qed
  then have ne: "?s10 \<noteq> ?s11"
    by auto
  obtain this10 where c10: "XorContext_ctor String FileName 10 (T @ [0]) gk ge = Some this10"
    and i10: "ctor_inv String ?s10 gk ge (N String + 1) this10"
    using XorContext_ctor_inv [OF seed10 n] by (auto simp add: str)
  obtain this11 where c11: "XorContext_ctor String FileName 11 (T @ [0]) gk' ge' = Some this11"
    and i11: "ctor_inv String ?s11 gk' ge' (N String + 1) this11"
    using XorContext_ctor_inv [OF seed11 n] by (auto simp add: str)
  have pos: "0 < array_extent String"
    using round_up_16_bounds [of "N String + 1"] array_extent_round_up [OF n] by simp
  from i10 pos have "m_key this10 ! 0 = RandomChar ?s10 (word_of_nat 0)"
    by (simp add: ctor_inv_def)
  then have k10: "m_key this10 ! 0 = state_byte ?s10 0"
    by (simp only: RandomChar_0)
  from i11 pos have "m_key this11 ! 0 = RandomChar ?s11 (word_of_nat 0)"
    by (simp add: ctor_inv_def)
  then have k11: "m_key this11 ! 0 = state_byte ?s11 0"
    by (simp only: RandomChar_0)
  from byte0 have "m_key this10 ! 0 \<noteq> m_key this11 ! 0"
    by (simp only: k10 k11) simp
  then have "m_key this10 \<noteq> m_key this11"
    by auto
  with seed10 seed11 diff ne c10 c11 show ?thesis
    by blast
qed

text \<open>Lines 10 and 11 of \<^verbatim>\<open>a.cpp\<close>.\<close>

theorem key_differs_by_line_hello:
  "FixedString_guide (literal ''hello'') = Some hello \<and>
   FixedString_guide (literal ''a.cpp'') = Some a_cpp \<and>
   (\<exists>seed10 seed11 this10 this11.
      RandomSeed hello a_cpp 10 build_stamp = Some seed10 \<and>
      RandomSeed hello a_cpp 11 build_stamp = Some seed11 \<and>
      seed10 XOR seed11 = SplitMix64 10 XOR SplitMix64 11 \<and> seed10 \<noteq> seed11 \<and>
      XorContext_ctor hello a_cpp 10 build_stamp (stale 0xAA) (stale 0xBB) = Some this10 \<and>
      XorContext_ctor hello a_cpp 11 build_stamp (stale 0xAA) (stale 0xBB) = Some this11 \<and>
      m_key this10 \<noteq> m_key this11)"
proof -
  have S: "FixedString_guide (literal ''hello'') = Some hello"
    using FixedString_guide_literal [of "chars ''hello''"]
    by (simp add: hello_def chars_def literal_def)
  have F: "FixedString_guide (chars ''a.cpp'' @ [0]) = Some a_cpp"
    using FixedString_guide_literal [of "chars ''a.cpp''"] by (simp add: a_cpp_def chars_def)
  have stamp: "chars ''Nov  2 202608:28:00'' @ [0] = build_stamp"
    by (simp add: build_stamp_def literal_def)
  note key_differs_by_line [OF S F, of "chars ''Nov  2 202608:28:00''"
      "stale 0xAA" "stale 0xBB" "stale 0xAA" "stale 0xBB", unfolded stamp]
  with S F show ?thesis
    by (simp add: literal_def)
qed

section \<open>The build toggle\<close>

text \<open>
  C2: with \<^verbatim>\<open>CTE_ENCRYPTSTRINGS\<close> undefined, \<^verbatim>\<open>XorStr("hello")\<close> should be the literal
  itself. The header never tests the flag: the call still builds the key and the cipher
  and returns their exclusive or, a 16-byte buffer. Its first six bytes are those of the
  literal; the ten that follow are the exclusive or of what the storage of the two
  arrays held (\<open>0xAA XOR 0xBB = 0x11\<close>, \<open>0x00 XOR 0xFF = 0xFF\<close>), which shows the
  obfuscation path at work.
\<close>

theorem XorStr_toggle_off:
  "XorStr False (literal ''hello'') (literal ''a.cpp'') 10 build_stamp
     (stale 0xAA) (stale 0xBB) (stale 0xCC) =
     Some [0x68, 0x65, 0x6c, 0x6c, 0x6f, 0,
           0x11, 0x11, 0x11, 0x11, 0x11, 0x11, 0x11, 0x11, 0x11, 0x11] \<and>
   XorStr False (literal ''hello'') (literal ''a.cpp'') 10 build_stamp
     (stale 0x00) (stale 0xFF) (stale 0xCC) =
     Some [0x68, 0x65, 0x6c, 0x6c, 0x6f, 0,
           0xFF, 0xFF, 0xFF, 0xFF, 0xFF, 0xFF, 0xFF, 0xFF, 0xFF, 0xFF] \<and>
   literal ''hello'' = [0x68, 0x65, 0x6c, 0x6c, 0x6f, 0]"
proof -
  have "XorStr False (literal ''hello'') (literal ''a.cpp'') 10 build_stamp
     (stale 0xAA) (stale 0xBB) (stale 0xCC) =
     Some [0x68, 0x65, 0x6c, 0x6c, 0x6f, 0,
           0x11, 0x11, 0x11, 0x11, 0x11, 0x11, 0x11, 0x11, 0x11, 0x11]"
    by code_simp
  moreover have "XorStr False (literal ''hello'') (literal ''a.cpp'') 10 build_stamp
     (stale 0x00) (stale 0xFF) (stale 0xCC) =
     Some [0x68, 0x65, 0x6c, 0x6c, 0x6f, 0,
           0xFF, 0xFF, 0xFF, 0xFF, 0xFF, 0xFF, 0xFF, 0xFF, 0xFF, 0xFF]"
    by code_simp
  moreover have "literal ''hello'' = [0x68, 0x65, 0x6c, 0x6c, 0x6f, 0]"
    by (simp add: literal_def chars_def)
  ultimately show ?thesis
    by (simp only: simp_thms)
qed

end
